theory Spec2Isabelle
  imports Main "HOL-Library.Sublist" "HOL-Library.Char_ord" "HOL-Library.List_Lexorder"
begin

section \<open>Python string and path primitives used by the scripts\<close>

text \<open>
  Python \<open>str\<close> values are modelled as \<open>string\<close> (a list of characters). The three
  scripts run on a POSIX host (they call \<open>sudo\<close>, \<open>tar\<close> and use paths under \<open>/etc\<close>),
  so \<open>os.sep\<close> is the slash and \<open>Path\<close> is \<open>PosixPath\<close>.
\<close>

definition os_sep :: string where
  "os_sep = ''/''"

text \<open>\<open>s.lstrip("/")\<close>: drop every leading slash.\<close>

definition lstrip_slash :: "string \<Rightarrow> string" where
  "lstrip_slash s = dropWhile (\<lambda>c. c = CHR ''/'') s"

text \<open>\<open>s.replace("/", "__")\<close>: every slash, left to right, becomes two underscores.\<close>

fun replace_slash :: "string \<Rightarrow> string" where
  "replace_slash [] = []"
| "replace_slash (c # cs) =
     (if c = CHR ''/'' then CHR ''_'' # CHR ''_'' # replace_slash cs
      else c # replace_slash cs)"

text \<open>\<open>s.split("/")\<close>: the pieces between slashes; always at least one piece.\<close>

fun split_slash :: "string \<Rightarrow> string list" where
  "split_slash [] = [[]]"
| "split_slash (c # cs) =
     (if c = CHR ''/'' then [] # split_slash cs
      else (case split_slash cs of
              [] \<Rightarrow> [[c]]
            | p # ps \<Rightarrow> (c # p) # ps))"

text \<open>\<open>"/".join(parts)\<close>.\<close>

fun join_slash :: "string list \<Rightarrow> string" where
  "join_slash [] = []"
| "join_slash [p] = p"
| "join_slash (p # q # ps) = p @ CHR ''/'' # join_slash (q # ps)"

text \<open>
  \<open>str(Path(s))\<close> on POSIX, after \<open>posixpath.splitroot\<close> and pathlib's parser: the root
  is \<open>//\<close> when the text starts with exactly two slashes, \<open>/\<close> when it starts with one or
  with three and more, and empty otherwise; of the remaining text the empty and the
  \<open>.\<close> segments are dropped (\<open>..\<close> is kept); a path with neither root nor segment
  prints as \<open>.\<close>. Building a pure path from a \<open>str\<close> never raises.
\<close>

definition splitroot :: "string \<Rightarrow> string \<times> string" where
  "splitroot p =
     (case p of
        [] \<Rightarrow> ([], [])
      | c # r \<Rightarrow>
          if c \<noteq> CHR ''/'' then ([], p)
          else if take 1 r \<noteq> ''/'' \<or> take 1 (drop 1 r) = ''/'' then (''/'', r)
          else (''//'', drop 1 r))"

definition path_parts :: "string \<Rightarrow> string list" where
  "path_parts rel = filter (\<lambda>x. x \<noteq> [] \<and> x \<noteq> ''.'') (split_slash rel)"

definition str_Path :: "string \<Rightarrow> string" where
  "str_Path s =
     (let (root, rel) = splitroot s;
          body = root @ join_slash (path_parts rel)
      in if body = [] then ''.'' else body)"

section \<open>The backup patcher (auto\_patch\_backup.py)\<close>

subsection \<open>Archive naming\<close>

text \<open>
  \<open>safe_archive_name_from_src(src)\<close> is
  \<open>src.lstrip("/").replace("/", "__") + ".tar.gz"\<close>.
\<close>

definition safe_archive_name_from_src :: "string \<Rightarrow> string" where
  "safe_archive_name_from_src src = replace_slash (lstrip_slash src) @ ''.tar.gz''"

text \<open>
  The paths on which the naming is studied: a path with a single leading slash, in
  which no underscore is directly followed by an underscore or a slash. The allow-listed
  system directories (\<open>/etc/pihole\<close>, \<open>/etc/dnsmasq.d\<close>, \<open>/etc/caddy\<close>,
  \<open>/etc/caddy_config\<close>) and paths such as \<open>/home/u/data\<close> are of this kind.
\<close>

definition single_root :: "string \<Rightarrow> bool" where
  "single_root s = (case s of [] \<Rightarrow> False | c # t \<Rightarrow> c = CHR ''/'' \<and> take 1 t \<noteq> ''/'')"

fun plain_underscores :: "string \<Rightarrow> bool" where
  "plain_underscores [] = True"
| "plain_underscores [c] = True"
| "plain_underscores (c # d # cs) =
     (\<not> (c = CHR ''_'' \<and> (d = CHR ''_'' \<or> d = CHR ''/'')) \<and> plain_underscores (d # cs))"

text \<open>Reading a flat name back: two underscores in a row stand for a slash.\<close>

fun unreplace :: "string \<Rightarrow> string" where
  "unreplace [] = []"
| "unreplace [c] = [c]"
| "unreplace (c # d # cs) =
     (if c = CHR ''_'' \<and> d = CHR ''_'' then CHR ''/'' # unreplace cs
      else c # unreplace (d # cs))"

subsection \<open>Inclusion test\<close>

text \<open>
  \<open>should_include_path(src, prefixes)\<close>: the loop over the prefixes returns at the first
  prefix that matches. The \<open>except\<close> branch around \<open>str(Path(src))\<close> cannot be taken for
  a \<open>str\<close> argument, so \<open>src_norm\<close> is always the normalised text.
\<close>

fun should_include_path :: "string \<Rightarrow> string list \<Rightarrow> bool" where
  "should_include_path src [] = False"
| "should_include_path src (p # ps) =
     (let p_norm = str_Path p;
          src_norm = str_Path src
      in if src_norm = p_norm \<or> prefix (p_norm @ os_sep) src_norm then True
         else should_include_path src ps)"

subsection \<open>The file system and the outside world\<close>

text \<open>
  The patcher reads and changes directories and files and starts external commands.
  A \<open>world\<close> holds what can be observed of that: the directories that exist, the regular
  files that exist, and the trace of everything printed or started, oldest first. Paths
  are the normalised texts \<open>str(Path(...))\<close> gives. The model follows the runs in which
  the operating system carries out every call it is given; the only failures are the
  non-zero exit statuses of external commands, which \<open>cmd_ok\<close> decides.
\<close>

datatype message =
    WouldArchive string string
  | Archiving string string string
  | TarFailed string "string list"
  | RebuildFailed "string list"
  | Line string

datatype event =
    Stdout message
  | Stderr message
  | Exec "string list"
  | Mkdir string
  | Rmtree string

record world =
  dirs :: "string list"
  files :: "string list"
  trace :: "event list"

record env =
  home :: string
  owner :: string
  cmd_ok :: "string list \<Rightarrow> bool"

definition emit :: "event \<Rightarrow> world \<Rightarrow> world" where
  "emit e w = w\<lparr>trace := trace w @ [e]\<rparr>"

text \<open>The last component of a path and the path without it (\<open>p.name\<close>, \<open>p.parent\<close>).\<close>

definition path_name :: "string \<Rightarrow> string" where
  "path_name p = rev (takeWhile (\<lambda>c. c \<noteq> CHR ''/'') (rev p))"

definition path_parent :: "string \<Rightarrow> string" where
  "path_parent p =
     (let r = rev (drop 1 (dropWhile (\<lambda>c. c \<noteq> CHR ''/'') (rev p)))
      in if r = [] then (if take 1 p = ''/'' then ''/'' else ''.'') else r)"

text \<open>\<open>str(d / n)\<close> for a directory \<open>d\<close> and a relative name \<open>n\<close>.\<close>

definition path_child :: "string \<Rightarrow> string \<Rightarrow> string" where
  "path_child d n =
     str_Path (if d = [] \<or> last d = CHR ''/'' then d @ n else d @ ''/'' @ n)"

definition path_exists :: "world \<Rightarrow> string \<Rightarrow> bool" where
  "path_exists w p = (str_Path p \<in> set (dirs w) \<or> str_Path p \<in> set (files w))"

text \<open>
  \<open>bind_dir.mkdir(parents=True, exist_ok=True)\<close>: the directory and every missing
  ancestor are created; directories that exist are left alone.
\<close>

definition ancestors_and_self :: "string \<Rightarrow> string list" where
  "ancestors_and_self p =
     map (\<lambda>ps. if join_slash ps = [] then ''/'' else join_slash ps)
       (tl (prefixes (split_slash p)))"

definition mkdir_parents :: "string \<Rightarrow> world \<Rightarrow> world" where
  "mkdir_parents p w =
     (emit (Mkdir p) w)
       \<lparr>dirs := dirs w @ filter (\<lambda>d. d \<notin> set (dirs w)) (ancestors_and_self p)\<rparr>"

text \<open>
  \<open>list_archives(dirpath)\<close>: the empty set when the directory does not exist, else the
  names of its entries that match \<open>*.tar.gz\<close>.
\<close>

definition list_archives :: "world \<Rightarrow> string \<Rightarrow> string set" where
  "list_archives w dirpath =
     (if \<not> path_exists w dirpath then {}
      else set (map path_name
             (filter (\<lambda>f. path_parent f = str_Path dirpath \<and> suffix ''.tar.gz'' (path_name f))
                (files w))))"

subsection \<open>Creating the missing archives\<close>

type_synonym bind_mount = "string \<times> string \<times> string"

definition tar_cmd :: "string \<Rightarrow> string \<Rightarrow> string list" where
  "tar_cmd archive_path rel = [''sudo'', ''tar'', ''czf'', archive_path, ''-C'', ''/'', rel]"

definition chown_cmd :: "env \<Rightarrow> string \<Rightarrow> string list" where
  "chown_cmd e archive_path = [''sudo'', ''chown'', owner e, archive_path]"

definition add_file :: "string \<Rightarrow> world \<Rightarrow> world" where
  "add_file f w = (if f \<in> set (files w) then w else w\<lparr>files := files w @ [f]\<rparr>)"

text \<open>
  The loop of \<open>ensure_bind_archives\<close> (lines 127 to 150), with the list \<open>created\<close> and
  the world as its state. \<open>existing\<close> is read once before the loop. Both
  \<open>subprocess.run(..., check=True)\<close> calls stand in one \<open>try\<close>: a non-zero exit of either
  raises \<open>CalledProcessError\<close>, the handler prints to the error stream, and the loop goes
  on with the next mount. A successful \<open>tar\<close> leaves the archive file behind.
\<close>

fun archive_loop ::
  "env \<Rightarrow> string set \<Rightarrow> string \<Rightarrow> bool \<Rightarrow> bind_mount list \<Rightarrow> string list \<times> world
     \<Rightarrow> string list \<times> world" where
  "archive_loop e existing bind_dir dry_run [] (created, w) = (created, w)"
| "archive_loop e existing bind_dir dry_run ((cname, src, dst) # rest) (created, w) =
     (let arc = safe_archive_name_from_src src in
      if arc \<in> existing then archive_loop e existing bind_dir dry_run rest (created, w)
      else
        let archive_path = path_child bind_dir arc in
        if dry_run then
          archive_loop e existing bind_dir dry_run rest
            (created @ [arc], emit (Stdout (WouldArchive src archive_path)) w)
        else
          let rel = lstrip_slash src;
              w1 = emit (Stdout (Archiving src cname archive_path)) w;
              w2 = emit (Exec (tar_cmd archive_path rel)) w1
          in
          if \<not> cmd_ok e (tar_cmd archive_path rel) then
            archive_loop e existing bind_dir dry_run rest
              (created, emit (Stderr (TarFailed src (tar_cmd archive_path rel))) w2)
          else
            let w3 = add_file archive_path w2;
                w4 = emit (Exec (chown_cmd e archive_path)) w3
            in
            if \<not> cmd_ok e (chown_cmd e archive_path) then
              archive_loop e existing bind_dir dry_run rest
                (created, emit (Stderr (TarFailed src (chown_cmd e archive_path))) w4)
            else archive_loop e existing bind_dir dry_run rest (created @ [arc], w4))"

text \<open>
  What the loop is observed by: the \<open>tar\<close> commands started and the messages written to
  the error stream, both in order; and, for one mount, its archive path, its \<open>tar\<close>
  command, whether its archive is missing, whether both of its commands succeed, and the
  message its failure is reported with.
\<close>

definition tar_attempts :: "event list \<Rightarrow> string list list" where
  "tar_attempts t = [a. Exec a \<leftarrow> t, take 2 a = [''sudo'', ''tar'']]"

definition stderr_of :: "event list \<Rightarrow> message list" where
  "stderr_of t = [m. Stderr m \<leftarrow> t]"

definition archive_of :: "string \<Rightarrow> bind_mount \<Rightarrow> string" where
  "archive_of bind_dir m = path_child bind_dir (safe_archive_name_from_src (fst (snd m)))"

definition tar_of :: "string \<Rightarrow> bind_mount \<Rightarrow> string list" where
  "tar_of bind_dir m = tar_cmd (archive_of bind_dir m) (lstrip_slash (fst (snd m)))"

definition item_ok :: "env \<Rightarrow> string \<Rightarrow> bind_mount \<Rightarrow> bool" where
  "item_ok e bind_dir m =
     (cmd_ok e (tar_of bind_dir m) \<and> cmd_ok e (chown_cmd e (archive_of bind_dir m)))"

definition failure_of :: "env \<Rightarrow> string \<Rightarrow> bind_mount \<Rightarrow> message" where
  "failure_of e bind_dir m =
     TarFailed (fst (snd m))
       (if cmd_ok e (tar_of bind_dir m) then chown_cmd e (archive_of bind_dir m)
        else tar_of bind_dir m)"

definition is_missing :: "string set \<Rightarrow> bind_mount \<Rightarrow> bool" where
  "is_missing existing m = (safe_archive_name_from_src (fst (snd m)) \<notin> existing)"

text \<open>
  \<open>ensure_bind_archives(bind_mounts, bind_dir, dry_run)\<close>: the directory is made before
  anything else, whatever \<open>dry_run\<close> is; then the existing archives are listed and the
  loop runs.
\<close>

definition ensure_bind_archives ::
  "env \<Rightarrow> bind_mount list \<Rightarrow> string \<Rightarrow> bool \<Rightarrow> world \<Rightarrow> string list \<times> world" where
  "ensure_bind_archives e bind_mounts bind_dir dry_run w =
     (let w1 = mkdir_parents bind_dir w;
          existing = list_archives w1 bind_dir
      in archive_loop e existing bind_dir dry_run bind_mounts ([], w1))"

subsection \<open>The missing set\<close>


section \<open>The adlist provisioner (add\_adlists.py)\<close>

text \<open>What a run can end with other than a normal return.\<close>

datatype exn =
    SystemExit string
  | Exit nat
  | TypeError string
  | CalledProcessError int "string list"

subsection \<open>Container detection\<close>

text \<open>
  \<open>n.lower()\<close> on the letters A to Z; every other character is left as it is (Docker
  container names are made of ASCII letters, digits, underscore, dot and dash).
\<close>

definition lower_char :: "char \<Rightarrow> char" where
  "lower_char c =
     (case map_of (zip ''ABCDEFGHIJKLMNOPQRSTUVWXYZ'' ''abcdefghijklmnopqrstuvwxyz'') c of
        Some l \<Rightarrow> l
      | None \<Rightarrow> c)"

definition py_lower :: "string \<Rightarrow> string" where
  "py_lower s = map lower_char s"

definition no_container_msg :: string where
  "no_container_msg =
     ''Couldn't detect a Pi-hole container automatically. Pass --container <name>.''"

text \<open>The loop \<open>for n in out: if "pihole" in n.lower(): return n\<close>.\<close>

fun first_pihole :: "string list \<Rightarrow> string option" where
  "first_pihole [] = None"
| "first_pihole (n # out) =
     (if sublist ''pihole'' (py_lower n) then Some n else first_pihole out)"

text \<open>
  \<open>detect_container_name()\<close>. Its input is what \<open>docker ps\<close> printed, stripped and split
  into lines, or \<open>None\<close> when running it raised: every exception inside the \<open>try\<close> is
  swallowed and the function falls through to \<open>raise SystemExit(...)\<close>.
\<close>

definition detect_container_name :: "string list option \<Rightarrow> exn + string" where
  "detect_container_name ps =
     (case ps of
        None \<Rightarrow> Inl (SystemExit no_container_msg)
      | Some out \<Rightarrow>
          if ''pihole'' \<in> set out then Inr ''pihole''
          else (case first_pihole out of
                  Some n \<Rightarrow> Inr n
                | None \<Rightarrow> Inl (SystemExit no_container_msg)))"

subsection \<open>The gravity database\<close>

text \<open>
  The rows of the three tables with the columns the script reads and writes, and the
  names of the tables the file holds (\<open>sqlite_master\<close> rows of type \<open>table\<close>).
\<close>

record group_row =
  g_id :: int
  g_enabled :: int
  g_name :: string
  g_description :: string

record adlist_row =
  a_id :: int
  address :: string
  enabled :: int
  date_added :: int
  date_modified :: int
  comment :: string

record db =
  tables :: "string list"
  group_tbl :: "group_row list"
  adlist :: "adlist_row list"
  adlist_by_group :: "(int \<times> int) list"

definition ADLISTS :: "(string \<times> string) list" where
  "ADLISTS =
     [(''https://big.oisd.nl/'', ''OISD Big''),
      (''https://v.firebog.net/hosts/Easyprivacy.txt'', ''EasyPrivacy (Firebog)''),
      (''https://v.firebog.net/hosts/AdguardDNS.txt'', ''AdGuard DNS (Firebog)'')]"

definition DEFAULT_GROUP_ID :: int where
  "DEFAULT_GROUP_ID = 0"

text \<open>
  Modelled from the spec: the uniqueness constraints of the three tables. The repository
  creates none of them (the schema is Pi-hole's, an external contract); the spec's data
  model makes an adlist record unique by its url, the default group a single row found
  by its id, and a group link a pair with no duplicate. \<open>INSERT OR IGNORE\<close> skips a
  row that would break such a constraint and inserts it otherwise. A new adlist row gets
  the integer key SQLite assigns: one more than the largest key in the table, or 1 in an
  empty table.
\<close>

definition insert_or_ignore_group :: "int \<Rightarrow> string \<Rightarrow> string \<Rightarrow> db \<Rightarrow> db" where
  "insert_or_ignore_group gid name descr d =
     (if gid \<in> set (map g_id (group_tbl d)) then d
      else d\<lparr>group_tbl := group_tbl d @
             [\<lparr>g_id = gid, g_enabled = 1, g_name = name, g_description = descr\<rparr>]\<rparr>)"

definition next_rowid :: "adlist_row list \<Rightarrow> int" where
  "next_rowid rows =
     (case rows of
        [] \<Rightarrow> 1
      | r # rs \<Rightarrow> fold max (map a_id rs) (a_id r) + 1)"

definition insert_or_ignore_adlist :: "string \<Rightarrow> string \<Rightarrow> int \<Rightarrow> db \<Rightarrow> db" where
  "insert_or_ignore_adlist url descr t d =
     (if url \<in> set (map address (adlist d)) then d
      else d\<lparr>adlist := adlist d @
             [\<lparr>a_id = next_rowid (adlist d), address = url, enabled = 1,
               date_added = t, date_modified = t, comment = descr\<rparr>]\<rparr>)"

definition add_link :: "int \<times> int \<Rightarrow> (int \<times> int) list \<Rightarrow> (int \<times> int) list" where
  "add_link k links = (if k \<in> set links then links else links @ [k])"

text \<open>\<open>UPDATE "group" SET enabled=1 WHERE id=?\<close>.\<close>

definition update_group :: "int \<Rightarrow> db \<Rightarrow> db" where
  "update_group gid d =
     d\<lparr>group_tbl := map (\<lambda>r. if g_id r = gid then r\<lparr>g_enabled := 1\<rparr> else r) (group_tbl d)\<rparr>"

text \<open>\<open>UPDATE adlist SET enabled=1, date_modified=strftime('%s','now'), comment=? WHERE address=?\<close>.\<close>

definition update_adlist :: "string \<Rightarrow> string \<Rightarrow> int \<Rightarrow> db \<Rightarrow> db" where
  "update_adlist url descr t d =
     d\<lparr>adlist := map (\<lambda>r. if address r = url
                           then r\<lparr>enabled := 1, date_modified := t, comment := descr\<rparr>
                           else r) (adlist d)\<rparr>"

text \<open>
  \<open>INSERT OR IGNORE INTO adlist_by_group(adlist_id, group_id) SELECT id, ? FROM adlist
  WHERE address=?\<close>: one candidate link per selected row, in table order.
\<close>

definition link_adlist :: "string \<Rightarrow> int \<Rightarrow> db \<Rightarrow> db" where
  "link_adlist url gid d =
     d\<lparr>adlist_by_group :=
         fold add_link (map (\<lambda>r. (a_id r, gid)) (filter (\<lambda>r. address r = url) (adlist d)))
           (adlist_by_group d)\<rparr>"

text \<open>
  The loop \<open>for url, desc in ADLISTS\<close> of \<open>edit_db_on_host\<close>. \<open>strftime('%s','now')\<close>
  reads the clock anew in each statement: \<open>now k\<close> is the reading (in seconds) of the
  \<open>k\<close>-th statement that reads it, the insert and the update of each adlist in turn.
\<close>

fun upsert_loop :: "(nat \<Rightarrow> int) \<Rightarrow> nat \<Rightarrow> (string \<times> string) list \<Rightarrow> db \<Rightarrow> db" where
  "upsert_loop now k [] d = d"
| "upsert_loop now k ((url, descr) # rest) d =
     upsert_loop now (k + 2) rest
       (link_adlist url DEFAULT_GROUP_ID
          (update_adlist url descr (now (k + 1))
             (insert_or_ignore_adlist url descr (now k) d)))"

definition need :: "string list" where
  "need = [''adlist'', ''adlist_by_group'', ''group'']"

fun join_comma :: "string list \<Rightarrow> string" where
  "join_comma [] = []"
| "join_comma [p] = p"
| "join_comma (p # q # ps) = p @ '', '' @ join_comma (q # ps)"

text \<open>
  \<open>edit_db_on_host(db_path)\<close>. The file at \<open>db_path\<close> is \<open>None\<close> when it does not exist.
  The result is the file afterwards and how the call ended. The writes happen in one
  transaction that is committed at the end; the schema check raises before the first of
  them, and \<open>conn.close()\<close> in the \<open>finally\<close> block writes nothing.
\<close>

definition edit_db_on_host ::
  "(nat \<Rightarrow> int) \<Rightarrow> string \<Rightarrow> db option \<Rightarrow> db option \<times> (exn + unit)" where
  "edit_db_on_host now db_path file =
     (case file of
        None \<Rightarrow> (None, Inl (SystemExit (''DB file not found at '' @ db_path)))
      | Some d \<Rightarrow>
          let have = set (tables d);
              miss = filter (\<lambda>t. t \<notin> have) need
          in if miss \<noteq> []
             then (Some d,
                   Inl (SystemExit (''Unexpected DB schema; missing tables: ''
                          @ join_comma (sort miss))))
             else (Some (upsert_loop now 0 ADLISTS
                          (update_group DEFAULT_GROUP_ID
                             (insert_or_ignore_group DEFAULT_GROUP_ID ''Default''
                                ''Auto-created'' d))),
                   Inr ()))"

section \<open>The backup image inspector (inspect\_backup\_image.py)\<close>

text \<open>
  \<open>bind_name(src)\<close>, the local function of the inspector's \<open>main\<close>:
  \<open>src.lstrip("/").replace("/", "__") + ".tar.gz"\<close>.
\<close>

definition bind_name :: "string \<Rightarrow> string" where
  "bind_name src = replace_slash (lstrip_slash src) @ ''.tar.gz''"

text \<open>
  \<open>list_backup_images(prefix)\<close>: the lines \<open>docker images\<close> printed that start with the
  prefix, sorted; the empty list when the command failed (\<open>None\<close>). Python compares
  strings by code point, which is the order of their UTF-8 bytes.
\<close>

definition list_backup_images :: "string list option \<Rightarrow> string \<Rightarrow> string list" where
  "list_backup_images images pfx =
     (case images of
        None \<Rightarrow> []
      | Some out \<Rightarrow> sort (filter (\<lambda>i. prefix pfx i) out))"

definition autodetect_image :: "string list option \<Rightarrow> string option" where
  "autodetect_image images =
     (let imgs = list_backup_images images ''homelab-backup:''
      in if imgs = [] then None else Some (last imgs))"

text \<open>
  A \<open>CalledProcessError\<close> is built by \<open>subprocess.run\<close> as
  \<open>CalledProcessError(retcode, process.args, ...)\<close>, and an exception keeps the positional
  arguments of its constructor in \<open>e.args\<close>: the tuple \<open>(retcode, cmd)\<close>, an integer
  first. \<open>" ".join(x)\<close> raises \<open>TypeError\<close> when \<open>x\<close> is an integer.
\<close>

datatype pyobj = PyInt int | PyStrList "string list"

definition exc_args :: "int \<Rightarrow> string list \<Rightarrow> pyobj list" where
  "exc_args rc cmd = [PyInt rc, PyStrList cmd]"

fun join_space :: "string list \<Rightarrow> string" where
  "join_space [] = []"
| "join_space [p] = p"
| "join_space (p # q # ps) = p @ '' '' @ join_space (q # ps)"

definition str_join :: "pyobj \<Rightarrow> exn + string" where
  "str_join x =
     (case x of
        PyInt n \<Rightarrow> Inl (TypeError ''can only join an iterable'')
      | PyStrList xs \<Rightarrow> Inr (join_space xs))"

record iargs =
  arg_image :: "string option"
  arg_auto :: bool

record ienv =
  images :: "string list option"
  status :: "string list \<Rightarrow> int"
  cid_out :: string
  tmp :: string
  bundle_exists :: bool
  report :: "event list"

text \<open>Python's truth value of an optional string: \<open>None\<close> and the empty string are false.\<close>

definition truthy :: "string option \<Rightarrow> bool" where
  "truthy x = (case x of None \<Rightarrow> False | Some s \<Rightarrow> s \<noteq> [])"

definition no_image_msg :: string where
  "no_image_msg = ''ERROR: No backup image found. Hints: Build one: ~/make-backup-image.sh; Or list: docker images | grep homelab-backup; Or load: docker load -i /path/to/homelab-backup-image.tar''"

text \<open>
  The \<open>except subprocess.CalledProcessError as e\<close> block of \<open>main\<close> (lines 183 to 204):
  what it writes and the exception it ends with. \<open>e.args\<close> is a tuple, so the first
  branch of the conditional expression is the one evaluated.
\<close>

definition on_called_process_error ::
  "ienv \<Rightarrow> string \<Rightarrow> int \<Rightarrow> string list \<Rightarrow> event list \<times> exn" where
  "on_called_process_error e img rc cmd =
     (case str_join (hd (exc_args rc cmd)) of
        Inl ex \<Rightarrow> ([], ex)
      | Inr cmd_str \<Rightarrow>
          if sublist ''docker create'' cmd_str \<or> sublist ''create'' cmd_str then
            let imgs = list_backup_images (images e) ''homelab-backup:'' in
            ([Stderr (Line (''ERROR: Could not create container from image '' @ img))]
               @ (if imgs \<noteq> []
                  then [Stderr (Line ''Available homelab-backup images:'')]
                       @ map (\<lambda>i. Stderr (Line (''  - '' @ i))) imgs
                       @ [Stderr (Line ''Try:  ./inspect_backup_image.py --image <one-of-the-above>'')]
                  else [Stderr (Line ''No homelab-backup images are present locally.'')]),
             Exit 1)
          else ([Stderr (Line ''ERROR: Command failed'')], Exit 1))"

text \<open>
  The \<open>finally\<close> block: the throwaway container is removed when one was made, the
  temporary directory always.
\<close>

definition cleanup :: "ienv \<Rightarrow> string option \<Rightarrow> event list" where
  "cleanup e cid =
     (case cid of
        None \<Rightarrow> []
      | Some c \<Rightarrow> if c \<noteq> [] then [Exec [''docker'', ''rm'', ''-f'', c]] else [])
       @ [Rmtree (tmp e)]"

text \<open>
  \<open>main\<close> of the inspector: image resolution (lines 51 to 67), extraction, and the two
  handlers. What lines 81 to 181 print about the extracted bundle is the trace
  \<open>report e\<close>. The result is everything written or started, in order, and how the run
  ended.
\<close>

definition main_inspect :: "ienv \<Rightarrow> iargs \<Rightarrow> event list \<times> (exn + unit)" where
  "main_inspect e a =
     (let given = arg_image a;
          chosen =
            (if arg_auto a \<or> \<not> truthy given then
               (let auto = autodetect_image (images e) in
                if arg_auto a then auto
                else if \<not> truthy given \<and> truthy auto then auto
                else given)
             else given)
      in
      case (if truthy chosen then chosen else None) of
        None \<Rightarrow> ([Stderr (Line no_image_msg)], Inl (Exit 2))
      | Some img \<Rightarrow>
        let create = [''docker'', ''create'', img];
            t1 = [Mkdir (tmp e), Stdout (Line (''Using image: '' @ img)), Exec create]
        in
        if status e create \<noteq> 0 then
          (let (out, ex) = on_called_process_error e img (status e create) create
           in (t1 @ out @ cleanup e None, Inl ex))
        else
          let cid = Some (cid_out e);
              cp = [''docker'', ''cp'', cid_out e @ '':/bundle'', tmp e];
              t2 = t1 @ [Exec cp]
          in
          if status e cp \<noteq> 0 then
            (let (out, ex) = on_called_process_error e img (status e cp) cp
             in (t2 @ out @ cleanup e cid, Inl ex))
          else if \<not> bundle_exists e then
            (t2 @ [Stderr (Line ''ERROR: /bundle not found inside the image. Is this the right image?'')]
                @ cleanup e cid,
             Inl (Exit 3))
          else (t2 @ report e @ [Stdout (Line ''== Done =='')] @ cleanup e cid, Inr ()))"

section \<open>Notions used to compare two runs of the provisioner's edit\<close>


text \<open>
  Setting nothing but \<open>date_modified\<close> on the rows of one address, and doing so for
  each adlist in turn with the clock readings of the updates; and a row with its
  \<open>date_modified\<close> blanked, to compare rows up to that column.
\<close>

definition touch_row :: "string \<Rightarrow> int \<Rightarrow> adlist_row \<Rightarrow> adlist_row" where
  "touch_row url t r = (if address r = url then r\<lparr>date_modified := t\<rparr> else r)"

definition touch :: "string \<Rightarrow> int \<Rightarrow> db \<Rightarrow> db" where
  "touch url t d = d\<lparr>adlist := map (touch_row url t) (adlist d)\<rparr>"


definition forget_modified :: "adlist_row \<Rightarrow> adlist_row" where
  "forget_modified r = r\<lparr>date_modified := 0\<rparr>"

text \<open>
  A database in which an adlist is already provisioned: a row with its address exists,
  and every such row is enabled, carries the label and the given modification time, and
  is linked to the default group.
\<close>

definition row_settled :: "string \<Rightarrow> int \<Rightarrow> (int \<times> int) list \<Rightarrow> adlist_row \<Rightarrow> bool" where
  "row_settled descr t links r =
     (enabled r = 1 \<and> comment r = descr \<and> date_modified r = t
      \<and> (a_id r, DEFAULT_GROUP_ID) \<in> set links)"

definition settled :: "string \<Rightarrow> string \<Rightarrow> int \<Rightarrow> db \<Rightarrow> bool" where
  "settled url descr t d =
     (url \<in> set (map address (adlist d))
      \<and> list_all (row_settled descr t (adlist_by_group d))
          (filter (\<lambda>r. address r = url) (adlist d)))"



definition set_row :: "string \<Rightarrow> string \<Rightarrow> int \<Rightarrow> adlist_row \<Rightarrow> adlist_row" where
  "set_row url descr t r =
     (if address r = url then r\<lparr>enabled := 1, date_modified := t, comment := descr\<rparr> else r)"






section \<open>Properties\<close>

lemma str_Path_examples:
  "str_Path ''/etc/pihole/'' = ''/etc/pihole''"
  "str_Path ''/etc/pihole'' = ''/etc/pihole''"
  "str_Path ''/etc/pihole2'' = ''/etc/pihole2''"
  "str_Path ''/etc//./pihole'' = ''/etc/pihole''"
  "str_Path '''' = ''.''"
  "str_Path ''//a'' = ''//a''"
  "str_Path ''///a'' = ''/a''"
  "str_Path ''a/../b/'' = ''a/../b''"
  by (simp_all add: str_Path_def splitroot_def path_parts_def)


subsection \<open>Archive naming\<close>

lemma plain_tl: "plain_underscores (c # cs) \<Longrightarrow> plain_underscores cs"
  by (cases cs) simp_all

lemma unreplace_Cons:
  "c \<noteq> CHR ''_'' \<or> take 1 r \<noteq> ''_'' \<Longrightarrow> unreplace (c # r) = c # unreplace r"
  by (cases r) auto

lemma replace_head:
  "take 1 (replace_slash (d # cs)) = ''_'' \<longleftrightarrow> d = CHR ''_'' \<or> d = CHR ''/''"
  by simp

lemma unreplace_replace:
  "plain_underscores a \<Longrightarrow> unreplace (replace_slash a) = a"
proof (induction a rule: plain_underscores.induct)
  case 1
  show ?case by simp
next
  case (2 c)
  show ?case by simp
next
  case (3 c d cs)
  from "3.prems" have ok: "\<not> (c = CHR ''_'' \<and> (d = CHR ''_'' \<or> d = CHR ''/''))"
    and rest: "plain_underscores (d # cs)" by simp_all
  from "3.IH" rest have ih: "unreplace (replace_slash (d # cs)) = d # cs" by blast
  show ?case
  proof (cases "c = CHR ''/''")
    case True
    then have "replace_slash (c # d # cs) = CHR ''_'' # CHR ''_'' # replace_slash (d # cs)"
      by simp
    then have "unreplace (replace_slash (c # d # cs)) = CHR ''/'' # unreplace (replace_slash (d # cs))"
      by (simp only: unreplace.simps simp_thms if_True)
    with ih True show ?thesis by simp
  next
    case False
    then have r: "replace_slash (c # d # cs) = c # replace_slash (d # cs)"
      by simp
    from ok have "c \<noteq> CHR ''_'' \<or> take 1 (replace_slash (d # cs)) \<noteq> ''_''"
      unfolding replace_head by blast
    then have "unreplace (c # replace_slash (d # cs)) = c # unreplace (replace_slash (d # cs))"
      by (rule unreplace_Cons)
    with r ih show ?thesis by simp
  qed
qed

lemma lstrip_single_root:
  "single_root s \<Longrightarrow> \<exists>t. s = CHR ''/'' # t \<and> lstrip_slash s = t"
  by (cases s; cases "tl s") (auto simp: single_root_def lstrip_slash_def)

lemma name_inj:
  "inj_on safe_archive_name_from_src {s. single_root s \<and> plain_underscores s}"
proof (rule inj_onI)
  fix a b
  assume a: "a \<in> {s. single_root s \<and> plain_underscores s}"
    and b: "b \<in> {s. single_root s \<and> plain_underscores s}"
    and eq: "safe_archive_name_from_src a = safe_archive_name_from_src b"
  from a obtain t where t: "a = CHR ''/'' # t" "lstrip_slash a = t"
    using lstrip_single_root by blast
  from b obtain u where u: "b = CHR ''/'' # u" "lstrip_slash b = u"
    using lstrip_single_root by blast
  have pt: "plain_underscores t" using a t(1) plain_tl by blast
  have pu: "plain_underscores u" using b u(1) plain_tl by blast
  from eq t(2) u(2) have "replace_slash t = replace_slash u"
    by (simp add: safe_archive_name_from_src_def)
  then have "unreplace (replace_slash t) = unreplace (replace_slash u)" by simp
  with pt pu have "t = u" by (simp add: unreplace_replace)
  with t(1) u(1) show "a = b" by simp
qed

lemma lstrip_slash_leading: "lstrip_slash (CHR ''/'' # s) = lstrip_slash s"
  by (simp add: lstrip_slash_def)

text \<open>
  Claim C4, as the code has it. The archive name of a host path is a function of the
  path alone: every leading slash is stripped, so one more slash in front changes
  nothing; every other slash becomes two underscores; \<open>.tar.gz\<close> is appended. It sends
  \<open>/etc/pihole\<close> to \<open>etc__pihole.tar.gz\<close> and \<open>/home/u/data\<close> to \<open>home__u__data.tar.gz\<close>.
  It is injective on the paths with a single leading slash in which no underscore is
  directly followed by an underscore or a slash; the paths of the examples and the
  allow-listed directories are of this kind. Nothing is escaped, so it is not injective
  on everything the allow-list lets through.
\<close>

theorem archive_name_examples_and_injective:
  "safe_archive_name_from_src ''/etc/pihole'' = ''etc__pihole.tar.gz''
   \<and> safe_archive_name_from_src ''/home/u/data'' = ''home__u__data.tar.gz''
   \<and> safe_archive_name_from_src (CHR ''/'' # s) = safe_archive_name_from_src s
   \<and> inj_on safe_archive_name_from_src {s. single_root s \<and> plain_underscores s}"
  using name_inj lstrip_slash_leading [of s]
  by (simp add: safe_archive_name_from_src_def lstrip_slash_def)

theorem archive_name_injective_witness:
  "single_root ''/etc/pihole'' \<and> plain_underscores ''/etc/pihole''
   \<and> single_root ''/home/u/data'' \<and> plain_underscores ''/home/u/data''
   \<and> safe_archive_name_from_src ''/etc/pihole'' \<noteq> safe_archive_name_from_src ''/home/u/data''
   \<and> single_root ''/etc/caddy'' \<and> plain_underscores ''/etc/caddy''
   \<and> single_root ''/etc/caddy_config'' \<and> plain_underscores ''/etc/caddy_config''
   \<and> safe_archive_name_from_src ''/etc/caddy'' \<noteq> safe_archive_name_from_src ''/etc/caddy_config''
   \<and> safe_archive_name_from_src ''//etc/pihole'' = safe_archive_name_from_src ''/etc/pihole''"
proof -
  have d1: "''/etc/caddy'' \<in> {s. single_root s \<and> plain_underscores s}"
    by (simp add: single_root_def)
  have d2: "''/etc/caddy_config'' \<in> {s. single_root s \<and> plain_underscores s}"
    by (simp add: single_root_def)
  have d3: "''/etc/pihole'' \<in> {s. single_root s \<and> plain_underscores s}"
    by (simp add: single_root_def)
  have d4: "''/home/u/data'' \<in> {s. single_root s \<and> plain_underscores s}"
    by (simp add: single_root_def)
  from archive_name_examples_and_injective [of "''/etc/pihole''"]
  have inj: "inj_on safe_archive_name_from_src {s. single_root s \<and> plain_underscores s}"
    and lead: "safe_archive_name_from_src ''//etc/pihole'' = safe_archive_name_from_src ''/etc/pihole''"
    by blast+
  from inj_onD [OF inj _ d1 d2]
  have n1: "safe_archive_name_from_src ''/etc/caddy'' \<noteq> safe_archive_name_from_src ''/etc/caddy_config''"
    by auto
  from inj_onD [OF inj _ d3 d4]
  have n2: "safe_archive_name_from_src ''/etc/pihole'' \<noteq> safe_archive_name_from_src ''/home/u/data''"
    by auto
  from d1 d2 d3 d4 n1 n2 lead show ?thesis by simp
qed

text \<open>
  The claim as worded, injective over the allow-listed path space, fails: under the
  allow-listed prefix \<open>/etc/pihole\<close> the two different paths \<open>/etc/pihole/a__b\<close> and
  \<open>/etc/pihole/a/b\<close> are both included and both get the name
  \<open>etc__pihole__a__b.tar.gz\<close>.
\<close>

theorem archive_name_collision_counterexample:
  "should_include_path ''/etc/pihole/a__b'' [''/etc/pihole'']
   \<and> should_include_path ''/etc/pihole/a/b'' [''/etc/pihole'']
   \<and> ''/etc/pihole/a__b'' \<noteq> ''/etc/pihole/a/b''
   \<and> safe_archive_name_from_src ''/etc/pihole/a__b'' = ''etc__pihole__a__b.tar.gz''
   \<and> safe_archive_name_from_src ''/etc/pihole/a/b'' = ''etc__pihole__a__b.tar.gz''"
  by (simp add: os_sep_def str_Path_def splitroot_def path_parts_def
        safe_archive_name_from_src_def lstrip_slash_def)

text \<open>
  Claim C9. The patcher's \<open>safe_archive_name_from_src\<close> and the inspector's \<open>bind_name\<close>
  give the same file name for every host path.
\<close>

theorem bind_name_agrees: "safe_archive_name_from_src src = bind_name src"
  by (simp add: safe_archive_name_from_src_def bind_name_def)

subsection \<open>Inclusion test\<close>

lemma should_include_path_loop:
  "should_include_path src ps \<longleftrightarrow>
     (\<exists>p \<in> set ps. str_Path src = str_Path p \<or> prefix (str_Path p @ ''/'') (str_Path src))"
  by (induction ps) (auto simp: os_sep_def Let_def)

text \<open>
  Claim C1, as the code has it. The test compares the normalised texts
  \<open>str(Path(...))\<close> of the path and of each prefix: \<open>should_include_path S P\<close> is true
  exactly when the normalised \<open>S\<close> equals the normalised form of some prefix in \<open>P\<close> or
  starts with that form followed by a slash. The sibling \<open>/etc/pihole2\<close> is not
  included under the prefix \<open>/etc/pihole\<close>.
\<close>

theorem should_include_path_normalised:
  "(should_include_path S P \<longleftrightarrow>
      (\<exists>p \<in> set P. str_Path S = str_Path p \<or> prefix (str_Path p @ ''/'') (str_Path S)))
   \<and> \<not> should_include_path ''/etc/pihole2'' [''/etc/pihole'']"
  using should_include_path_loop [of S P]
  by (simp add: os_sep_def str_Path_def splitroot_def path_parts_def)

theorem should_include_path_normalised_witness:
  "should_include_path ''/etc/pihole/conf.d'' [''/srv'', ''/etc/pihole/'']
   \<and> str_Path ''/etc/pihole/conf.d'' = ''/etc/pihole/conf.d''
   \<and> str_Path ''/etc/pihole/'' = ''/etc/pihole''"
  using should_include_path_normalised [of "''/etc/pihole/conf.d''" "[''/srv'', ''/etc/pihole/'']"]
  by (simp add: os_sep_def str_Path_def splitroot_def path_parts_def)

text \<open>
  The claim as the spec words it, on the texts as given, fails: the prefix
  \<open>/etc/pihole/\<close> (with a trailing slash) includes the path \<open>/etc/pihole\<close>, which neither
  equals the prefix nor starts with the prefix followed by a slash.
\<close>

theorem should_include_path_raw_counterexample:
  "should_include_path ''/etc/pihole'' [''/etc/pihole/'']
   \<and> ''/etc/pihole'' \<noteq> ''/etc/pihole/''
   \<and> \<not> prefix (''/etc/pihole/'' @ ''/'') ''/etc/pihole''"
  by (simp add: os_sep_def str_Path_def splitroot_def path_parts_def)

subsection \<open>The missing set\<close>



subsection \<open>Container detection\<close>

lemma first_pihole_None:
  "(\<forall>m \<in> set out. \<not> sublist ''pihole'' (py_lower m)) \<Longrightarrow> first_pihole out = None"
  by (induction out) auto

lemma first_pihole_Some:
  "sublist ''pihole'' (py_lower n) \<Longrightarrow> (\<forall>m \<in> set pre. \<not> sublist ''pihole'' (py_lower m))
   \<Longrightarrow> first_pihole (pre @ n # post) = Some n"
  by (induction pre) auto

lemma pihole_has: "sublist ''pihole'' (py_lower ''pihole'')"
  by (simp add: py_lower_def lower_char_def sublist_code)

text \<open>
  Claim C10. For every list of running container names: when the exact name \<open>pihole\<close> is
  in the list it is returned; otherwise the first name, in the order of the list, whose
  lower-cased text contains \<open>pihole\<close> is returned; and when no name contains it, or the
  listing failed, the function ends with a \<open>SystemExit\<close> whose message tells the caller
  to pass \<open>--container\<close>.
\<close>

theorem detect_container_name_spec:
  "(''pihole'' \<in> set out \<longrightarrow> detect_container_name (Some out) = Inr ''pihole'')
   \<and> (''pihole'' \<notin> set (pre @ n # post) \<and> sublist ''pihole'' (py_lower n)
        \<and> (\<forall>m \<in> set pre. \<not> sublist ''pihole'' (py_lower m))
      \<longrightarrow> detect_container_name (Some (pre @ n # post)) = Inr n)
   \<and> ((\<forall>m \<in> set out. \<not> sublist ''pihole'' (py_lower m))
      \<longrightarrow> detect_container_name (Some out) = Inl (SystemExit no_container_msg))
   \<and> detect_container_name None = Inl (SystemExit no_container_msg)
   \<and> sublist ''Pass --container'' no_container_msg"
proof (intro conjI impI)
  show "detect_container_name (Some out) = Inr ''pihole''" if "''pihole'' \<in> set out"
    using that by (simp add: detect_container_name_def)
  show "detect_container_name (Some (pre @ n # post)) = Inr n"
    if "''pihole'' \<notin> set (pre @ n # post) \<and> sublist ''pihole'' (py_lower n)
        \<and> (\<forall>m \<in> set pre. \<not> sublist ''pihole'' (py_lower m))"
    using that first_pihole_Some [of n pre post]
    by (simp add: detect_container_name_def)
  show "detect_container_name (Some out) = Inl (SystemExit no_container_msg)"
    if h: "\<forall>m \<in> set out. \<not> sublist ''pihole'' (py_lower m)"
  proof -
    from h pihole_has have "''pihole'' \<notin> set out" by blast
    with first_pihole_None [OF h] show ?thesis by (simp add: detect_container_name_def)
  qed
  show "detect_container_name None = Inl (SystemExit no_container_msg)"
    by (simp add: detect_container_name_def)
  show "sublist ''Pass --container'' no_container_msg"
    by (simp add: no_container_msg_def sublist_code)
qed

theorem detect_container_name_witness:
  "''pihole'' \<in> set [''web'', ''My-PiHole'', ''pihole'']
   \<and> detect_container_name (Some [''web'', ''My-PiHole'', ''pihole'']) = Inr ''pihole''
   \<and> ''pihole'' \<notin> set ([''web''] @ ''My-PiHole'' # [''pihole-2''])
   \<and> sublist ''pihole'' (py_lower ''My-PiHole'')
   \<and> \<not> sublist ''pihole'' (py_lower ''web'')
   \<and> detect_container_name (Some ([''web''] @ ''My-PiHole'' # [''pihole-2''])) = Inr ''My-PiHole''
   \<and> \<not> sublist ''pihole'' (py_lower ''caddy'')
   \<and> detect_container_name (Some [''web'', ''caddy'']) = Inl (SystemExit no_container_msg)"
proof -
  have a: "sublist ''pihole'' (py_lower ''My-PiHole'')"
    by (simp add: py_lower_def lower_char_def sublist_code)
  have b: "\<not> sublist ''pihole'' (py_lower ''web'')"
    by (simp add: py_lower_def lower_char_def sublist_code)
  have c: "\<not> sublist ''pihole'' (py_lower ''caddy'')"
    by (simp add: py_lower_def lower_char_def sublist_code)
  from detect_container_name_spec [of "[''web'', ''My-PiHole'', ''pihole'']"]
  have 1: "detect_container_name (Some [''web'', ''My-PiHole'', ''pihole'']) = Inr ''pihole''"
    by simp
  from detect_container_name_spec [of _ "[''web'']" "''My-PiHole''" "[''pihole-2'']"] a b
  have 2: "detect_container_name (Some ([''web''] @ ''My-PiHole'' # [''pihole-2''])) = Inr ''My-PiHole''"
    by simp
  from detect_container_name_spec [of "[''web'', ''caddy'']"] b c
  have 3: "detect_container_name (Some [''web'', ''caddy'']) = Inl (SystemExit no_container_msg)"
    by simp
  from a b c 1 2 3 show ?thesis by simp
qed

subsection \<open>The host-side edit of the database\<close>

text \<open>
  Claim C6. In the host-side edit, when one of the tables \<open>adlist\<close>, \<open>adlist_by_group\<close>,
  \<open>group\<close> is absent, the call ends with a \<open>SystemExit\<close> that names the missing tables
  and the database file is what it was; the file differs afterwards only when all three
  tables exist, and then the call returns normally.
\<close>

theorem schema_check_before_writes:
  "((\<exists>t \<in> {''adlist'', ''adlist_by_group'', ''group''}. t \<notin> set (tables d)) \<longrightarrow>
      edit_db_on_host now p (Some d) =
        (Some d, Inl (SystemExit (''Unexpected DB schema; missing tables: ''
                 @ join_comma (sort (filter (\<lambda>t. t \<notin> set (tables d)) need))))))
   \<and> (fst (edit_db_on_host now p (Some d)) \<noteq> Some d \<longrightarrow>
        {''adlist'', ''adlist_by_group'', ''group''} \<subseteq> set (tables d))
   \<and> ({''adlist'', ''adlist_by_group'', ''group''} \<subseteq> set (tables d) \<longrightarrow>
        snd (edit_db_on_host now p (Some d)) = Inr ())"
  by (auto simp: edit_db_on_host_def need_def Let_def filter_empty_conv)

theorem schema_check_witness:
  "''adlist_by_group'' \<notin> set (tables \<lparr>tables = [''group'', ''adlist''], group_tbl = [], adlist = [], adlist_by_group = []\<rparr>)
   \<and> edit_db_on_host (\<lambda>k. 0) ''/tmp/x/gravity.db''
        (Some \<lparr>tables = [''group'', ''adlist''], group_tbl = [], adlist = [], adlist_by_group = []\<rparr>)
      = (Some \<lparr>tables = [''group'', ''adlist''], group_tbl = [], adlist = [], adlist_by_group = []\<rparr>,
         Inl (SystemExit ''Unexpected DB schema; missing tables: adlist_by_group''))
   \<and> {''adlist'', ''adlist_by_group'', ''group''}
        \<subseteq> set (tables \<lparr>tables = [''group'', ''adlist'', ''adlist_by_group''], group_tbl = [], adlist = [], adlist_by_group = []\<rparr>)
   \<and> snd (edit_db_on_host (\<lambda>k. 0) ''/tmp/x/gravity.db''
        (Some \<lparr>tables = [''group'', ''adlist'', ''adlist_by_group''], group_tbl = [], adlist = [], adlist_by_group = []\<rparr>))
      = Inr ()"
  using schema_check_before_writes [of "\<lparr>tables = [''group'', ''adlist''], group_tbl = [], adlist = [], adlist_by_group = []\<rparr>" "\<lambda>k. 0" "''/tmp/x/gravity.db''"]
    schema_check_before_writes [of "\<lparr>tables = [''group'', ''adlist'', ''adlist_by_group''], group_tbl = [], adlist = [], adlist_by_group = []\<rparr>" "\<lambda>k. 0" "''/tmp/x/gravity.db''"]
  by (simp add: need_def)

subsection \<open>Image resolution of the inspector\<close>

lemma sorted_last_ge:
  fixes ys :: "('a::linorder) list"
  shows "sorted ys \<Longrightarrow> y \<in> set ys \<Longrightarrow> y \<le> last ys"
proof (induction ys)
  case Nil
  then show ?case by simp
next
  case (Cons a ys)
  show ?case
  proof (cases "ys = []")
    case True
    with Cons.prems show ?thesis by simp
  next
    case False
    then have l: "last (a # ys) = last ys" by simp
    from False have m: "last ys \<in> set ys" by simp
    from Cons.prems(1) have s: "sorted ys" and le: "\<forall>z \<in> set ys. a \<le> z" by simp_all
    show ?thesis
    proof (cases "y = a")
      case True
      with le m l show ?thesis by simp
    next
      case False
      with Cons.prems(2) have "y \<in> set ys" by simp
      with Cons.IH s l show ?thesis by simp
    qed
  qed
qed

lemma sort_Nil_iff:
  fixes xs :: "('a::linorder) list"
  shows "sort xs = [] \<longleftrightarrow> xs = []"
proof
  assume "sort xs = []"
  then have "length (sort xs) = 0" by simp
  then show "xs = []" by simp
next
  assume "xs = []"
  then show "sort xs = []" by simp
qed

lemma last_sort_Max:
  fixes xs :: "('a::linorder) list"
  assumes ne: "xs \<noteq> []"
  shows "last (sort xs) = Max (set xs)"
proof -
  have st: "set (sort xs) = set xs" by simp
  from ne have ne': "sort xs \<noteq> []" by (simp add: sort_Nil_iff)
  have ub: "\<And>y. y \<in> set xs \<Longrightarrow> y \<le> last (sort xs)"
    using sorted_last_ge [of "sort xs"] by simp
  from ne' have "last (sort xs) \<in> set (sort xs)" by (rule last_in_set)
  then have mem: "last (sort xs) \<in> set xs" by simp
  show ?thesis
    by (rule sym, rule Max_eqI) (use ub mem in simp_all)
qed

lemma autodetect_greatest:
  "autodetect_image (Some out) =
     (if filter (\<lambda>i. prefix ''homelab-backup:'' i) out = [] then None
      else Some (Max (set (filter (\<lambda>i. prefix ''homelab-backup:'' i) out))))"
proof (cases "filter (\<lambda>i. prefix ''homelab-backup:'' i) out = []")
  case True
  then show ?thesis by (simp add: autodetect_image_def list_backup_images_def)
next
  case False
  with last_sort_Max [OF False] show ?thesis
    by (simp add: autodetect_image_def list_backup_images_def sort_Nil_iff)
qed

text \<open>
  Without an explicit tag the inspector takes the greatest, in lexicographic order, of the
  local images whose name starts with \<open>homelab-backup:\<close>, and none when there is no such
  image; with no image at all it writes its hints to the error stream and exits with
  status 2.
\<close>

lemma no_image_exits_2:
  "filter (\<lambda>i. prefix ''homelab-backup:'' i) out = [] \<Longrightarrow>
   main_inspect (e\<lparr>images := Some out\<rparr>) \<lparr>arg_image = None, arg_auto = au\<rparr>
     = ([Stderr (Line no_image_msg)], Inl (Exit 2))"
  by (simp add: main_inspect_def autodetect_image_def list_backup_images_def truthy_def)

text \<open>
  Claim C8, at the input where the code leaves it. The image
  \<open>homelab-backup:gone\<close> is asked for, \<open>docker create\<close> exits with status 1, and one
  \<open>homelab-backup:\<close> image is available locally. The handler evaluates
  \<open>" ".join(e.args[0])\<close> on the integer return code, so the run ends with a \<open>TypeError\<close>
  after the clean-up, and nothing is written to the error stream: the available images
  are not listed.
\<close>

theorem inspect_create_failure_lists_nothing:
  "main_inspect
     \<lparr>images = Some [''homelab-backup:2025-08-12_201735'', ''caddy:2''],
      status = (\<lambda>cmd. 1), cid_out = [], tmp = ''/tmp/bundle-inspect-x'',
      bundle_exists = False, report = []\<rparr>
     \<lparr>arg_image = Some ''homelab-backup:gone'', arg_auto = False\<rparr>
   = ([Mkdir ''/tmp/bundle-inspect-x'', Stdout (Line ''Using image: homelab-backup:gone''),
       Exec [''docker'', ''create'', ''homelab-backup:gone''], Rmtree ''/tmp/bundle-inspect-x''],
      Inl (TypeError ''can only join an iterable''))"
  by (simp add: main_inspect_def truthy_def on_called_process_error_def exc_args_def
        str_join_def cleanup_def)

subsection \<open>The archiving loop\<close>

lemma tar_attempts_simps [simp]:
  "tar_attempts [] = []"
  "tar_attempts (t @ u) = tar_attempts t @ tar_attempts u"
  "tar_attempts (Stdout m # t) = tar_attempts t"
  "tar_attempts (Stderr m # t) = tar_attempts t"
  "tar_attempts (Exec (tar_cmd p r) # t) = tar_cmd p r # tar_attempts t"
  "tar_attempts (Exec (chown_cmd e p) # t) = tar_attempts t"
  by (simp_all add: tar_attempts_def tar_cmd_def chown_cmd_def)

lemma stderr_of_simps [simp]:
  "stderr_of [] = []"
  "stderr_of (t @ u) = stderr_of t @ stderr_of u"
  "stderr_of (Stdout m # t) = stderr_of t"
  "stderr_of (Stderr m # t) = m # stderr_of t"
  "stderr_of (Exec a # t) = stderr_of t"
  by (simp_all add: stderr_of_def)

lemma trace_emit [simp]: "trace (emit ev w) = trace w @ [ev]"
  by (simp add: emit_def)

lemma trace_add_file [simp]: "trace (add_file f w) = trace w"
  by (simp add: add_file_def)

lemma archive_loop_real:
  "archive_loop e existing bd False ms (created, w) = (created', w') \<Longrightarrow>
   created' = created @ map (\<lambda>m. safe_archive_name_from_src (fst (snd m)))
                (filter (\<lambda>m. is_missing existing m \<and> item_ok e bd m) ms)
   \<and> tar_attempts (trace w') = tar_attempts (trace w) @ map (tar_of bd) (filter (is_missing existing) ms)
   \<and> stderr_of (trace w') = stderr_of (trace w)
        @ map (failure_of e bd) (filter (\<lambda>m. is_missing existing m \<and> \<not> item_ok e bd m) ms)"
proof (induction ms arbitrary: created w)
  case Nil
  then show ?case by simp
next
  case (Cons m ms)
  obtain c s d where m: "m = (c, s, d)" by (cases m) auto
  show ?case
  proof (cases "safe_archive_name_from_src s \<in> existing")
    case True
    with Cons.prems m have "archive_loop e existing bd False ms (created, w) = (created', w')"
      by simp
    from Cons.IH [OF this] True m show ?thesis by (simp add: is_missing_def)
  next
    case False
    show ?thesis
    proof (cases "cmd_ok e (tar_of bd m)")
      case tf: False
      with False Cons.prems m
      have "archive_loop e existing bd False ms
              (created, emit (Stderr (TarFailed s (tar_of bd m)))
                 (emit (Exec (tar_of bd m)) (emit (Stdout (Archiving s c (archive_of bd m))) w)))
            = (created', w')"
        by (simp add: Let_def tar_of_def archive_of_def)
      from Cons.IH [OF this] False tf m show ?thesis
        by (simp add: is_missing_def item_ok_def failure_of_def tar_of_def)
    next
      case tt: True
      show ?thesis
      proof (cases "cmd_ok e (chown_cmd e (archive_of bd m))")
        case cf: False
        with tt False Cons.prems m
        have "archive_loop e existing bd False ms
              (created, emit (Stderr (TarFailed s (chown_cmd e (archive_of bd m))))
                 (emit (Exec (chown_cmd e (archive_of bd m)))
                   (add_file (archive_of bd m)
                     (emit (Exec (tar_of bd m)) (emit (Stdout (Archiving s c (archive_of bd m))) w)))))
            = (created', w')"
          by (simp add: Let_def tar_of_def archive_of_def)
        from Cons.IH [OF this] False tt cf m show ?thesis
          by (simp add: is_missing_def item_ok_def failure_of_def tar_of_def)
      next
        case ct: True
        with tt False Cons.prems m
        have "archive_loop e existing bd False ms
              (created @ [safe_archive_name_from_src s],
                 (emit (Exec (chown_cmd e (archive_of bd m)))
                   (add_file (archive_of bd m)
                     (emit (Exec (tar_of bd m)) (emit (Stdout (Archiving s c (archive_of bd m))) w)))))
            = (created', w')"
          by (simp add: Let_def tar_of_def archive_of_def)
        from Cons.IH [OF this] False tt ct m show ?thesis
          by (simp add: is_missing_def item_ok_def failure_of_def tar_of_def)
      qed
    qed
  qed
qed


text \<open>
  What the loop does in a run that is not a dry run: it starts the \<open>tar\<close> command of
  every mount whose archive is missing, whatever happened to the mounts before it; each
  mount for which \<open>tar\<close> or the \<open>chown\<close> after it exits non-zero is reported on the
  error stream and left out; and the list returned holds the archive names of the
  missing mounts for which both commands succeeded. No failure of one mount ends the
  loop.
\<close>

lemma archive_loop_tolerates_failures:
  "fst (archive_loop e existing bd False ms (created, w))
     = created @ map (\<lambda>m. safe_archive_name_from_src (fst (snd m)))
                  (filter (\<lambda>m. is_missing existing m \<and> item_ok e bd m) ms)
   \<and> tar_attempts (trace (snd (archive_loop e existing bd False ms (created, w))))
     = tar_attempts (trace w) @ map (tar_of bd) (filter (is_missing existing) ms)
   \<and> stderr_of (trace (snd (archive_loop e existing bd False ms (created, w))))
     = stderr_of (trace w)
        @ map (failure_of e bd) (filter (\<lambda>m. is_missing existing m \<and> \<not> item_ok e bd m) ms)"
  using archive_loop_real [of e existing bd ms created w
      "fst (archive_loop e existing bd False ms (created, w))"
      "snd (archive_loop e existing bd False ms (created, w))"]
  by simp

lemma names_eval:
  "safe_archive_name_from_src ''/etc/pihole'' = ''etc__pihole.tar.gz''"
  "safe_archive_name_from_src ''/srv/x'' = ''srv__x.tar.gz''"
  "safe_archive_name_from_src ''/etc/caddy'' = ''etc__caddy.tar.gz''"
  "lstrip_slash ''/etc/pihole'' = ''etc/pihole''"
  "lstrip_slash ''/srv/x'' = ''srv/x''"
  "lstrip_slash ''/etc/caddy'' = ''etc/caddy''"
  by (simp_all add: safe_archive_name_from_src_def lstrip_slash_def)

lemma child_eval:
  "path_child ''/b/bind-mounts'' ''etc__pihole.tar.gz'' = ''/b/bind-mounts/etc__pihole.tar.gz''"
  "path_child ''/b/bind-mounts'' ''srv__x.tar.gz'' = ''/b/bind-mounts/srv__x.tar.gz''"
  "path_child ''/b/bind-mounts'' ''etc__caddy.tar.gz'' = ''/b/bind-mounts/etc__caddy.tar.gz''"
  by (simp_all add: path_child_def str_Path_def splitroot_def path_parts_def)

text \<open>
  Three mounts, none archived yet; \<open>tar\<close> fails for the second one only. The first and
  the third are archived and returned, the second is reported, and all three \<open>tar\<close>
  commands were started.
\<close>

lemma archive_loop_tolerates_failures_example:
  "fst (archive_loop
          \<lparr>home = ''/home/u'', owner = ''1000:1000'',
           cmd_ok = (\<lambda>a. a \<noteq> tar_cmd ''/b/bind-mounts/srv__x.tar.gz'' ''srv/x'')\<rparr>
          {} ''/b/bind-mounts'' False
          [(''pihole'', ''/etc/pihole'', ''/etc/pihole''), (''web'', ''/srv/x'', ''/x''),
           (''caddy'', ''/etc/caddy'', ''/etc/caddy'')]
          ([], \<lparr>dirs = [''/b/bind-mounts''], files = [], trace = []\<rparr>))
     = [''etc__pihole.tar.gz'', ''etc__caddy.tar.gz'']
   \<and> stderr_of (trace (snd (archive_loop
          \<lparr>home = ''/home/u'', owner = ''1000:1000'',
           cmd_ok = (\<lambda>a. a \<noteq> tar_cmd ''/b/bind-mounts/srv__x.tar.gz'' ''srv/x'')\<rparr>
          {} ''/b/bind-mounts'' False
          [(''pihole'', ''/etc/pihole'', ''/etc/pihole''), (''web'', ''/srv/x'', ''/x''),
           (''caddy'', ''/etc/caddy'', ''/etc/caddy'')]
          ([], \<lparr>dirs = [''/b/bind-mounts''], files = [], trace = []\<rparr>))))
     = [TarFailed ''/srv/x'' (tar_cmd ''/b/bind-mounts/srv__x.tar.gz'' ''srv/x'')]"
proof -
  let ?e = "\<lparr>home = ''/home/u'', owner = ''1000:1000'',
           cmd_ok = (\<lambda>a. a \<noteq> tar_cmd ''/b/bind-mounts/srv__x.tar.gz'' ''srv/x'')\<rparr>"
  have t1: "tar_of ''/b/bind-mounts'' (''pihole'', ''/etc/pihole'', ''/etc/pihole'')
              = tar_cmd ''/b/bind-mounts/etc__pihole.tar.gz'' ''etc/pihole''"
    and t2: "tar_of ''/b/bind-mounts'' (''web'', ''/srv/x'', ''/x'')
              = tar_cmd ''/b/bind-mounts/srv__x.tar.gz'' ''srv/x''"
    and t3: "tar_of ''/b/bind-mounts'' (''caddy'', ''/etc/caddy'', ''/etc/caddy'')
              = tar_cmd ''/b/bind-mounts/etc__caddy.tar.gz'' ''etc/caddy''"
    by (simp_all add: tar_of_def archive_of_def names_eval child_eval)
  have a1: "archive_of ''/b/bind-mounts'' (''pihole'', ''/etc/pihole'', ''/etc/pihole'')
              = ''/b/bind-mounts/etc__pihole.tar.gz''"
    and a2: "archive_of ''/b/bind-mounts'' (''web'', ''/srv/x'', ''/x'')
              = ''/b/bind-mounts/srv__x.tar.gz''"
    and a3: "archive_of ''/b/bind-mounts'' (''caddy'', ''/etc/caddy'', ''/etc/caddy'')
              = ''/b/bind-mounts/etc__caddy.tar.gz''"
    by (simp_all add: archive_of_def names_eval child_eval)
  have ne: "tar_cmd ''/b/bind-mounts/etc__pihole.tar.gz'' ''etc/pihole''
              \<noteq> tar_cmd ''/b/bind-mounts/srv__x.tar.gz'' ''srv/x''"
       "tar_cmd ''/b/bind-mounts/etc__caddy.tar.gz'' ''etc/caddy''
              \<noteq> tar_cmd ''/b/bind-mounts/srv__x.tar.gz'' ''srv/x''"
       "\<And>p. chown_cmd ?e p \<noteq> tar_cmd ''/b/bind-mounts/srv__x.tar.gz'' ''srv/x''"
    by (simp_all add: tar_cmd_def chown_cmd_def)
  have ok: "item_ok ?e ''/b/bind-mounts'' (''pihole'', ''/etc/pihole'', ''/etc/pihole'')"
       "\<not> item_ok ?e ''/b/bind-mounts'' (''web'', ''/srv/x'', ''/x'')"
       "item_ok ?e ''/b/bind-mounts'' (''caddy'', ''/etc/caddy'', ''/etc/caddy'')"
    using ne by (simp_all add: item_ok_def t1 t2 t3 a1 a2 a3)
  have f2: "failure_of ?e ''/b/bind-mounts'' (''web'', ''/srv/x'', ''/x'')
              = TarFailed ''/srv/x'' (tar_cmd ''/b/bind-mounts/srv__x.tar.gz'' ''srv/x'')"
    by (simp add: failure_of_def t2)
  from archive_loop_tolerates_failures
    [of ?e "{}" "''/b/bind-mounts''"
        "[(''pihole'', ''/etc/pihole'', ''/etc/pihole''), (''web'', ''/srv/x'', ''/x''),
           (''caddy'', ''/etc/caddy'', ''/etc/caddy'')]"
        "[]" "\<lparr>dirs = [''/b/bind-mounts''], files = [], trace = []\<rparr>"]
  show ?thesis
    by (simp add: is_missing_def ok f2 names_eval)
qed

text \<open>
  Claim C7, at the input where the code leaves it. One mount, \<open>/etc/pihole\<close>, is missing;
  \<open>tar\<close> succeeds and leaves the archive behind, the \<open>chown\<close> that follows exits
  non-zero. The archive command of the path succeeded and its archive exists, yet the list
  returned is empty, against the docstring \<open>Return a list of created archive filenames\<close>,
  and what is written to the error stream is the \<open>tar failed\<close> message.
\<close>

theorem archive_loop_chown_failure_hides_archive:
  "cmd_ok \<lparr>home = ''/home/u'', owner = ''1000:1000'', cmd_ok = (\<lambda>a. take 2 a = [''sudo'', ''tar''])\<rparr>
      (tar_cmd ''/b/bind-mounts/etc__pihole.tar.gz'' ''etc/pihole'')
   \<and> archive_loop
         \<lparr>home = ''/home/u'', owner = ''1000:1000'', cmd_ok = (\<lambda>a. take 2 a = [''sudo'', ''tar''])\<rparr>
         {} ''/b/bind-mounts'' False [(''pihole'', ''/etc/pihole'', ''/etc/pihole'')]
         ([], \<lparr>dirs = [''/b/bind-mounts''], files = [], trace = []\<rparr>)
     = ([],
        \<lparr>dirs = [''/b/bind-mounts''], files = [''/b/bind-mounts/etc__pihole.tar.gz''],
         trace = [Stdout (Archiving ''/etc/pihole'' ''pihole'' ''/b/bind-mounts/etc__pihole.tar.gz''),
                  Exec (tar_cmd ''/b/bind-mounts/etc__pihole.tar.gz'' ''etc/pihole''),
                  Exec [''sudo'', ''chown'', ''1000:1000'', ''/b/bind-mounts/etc__pihole.tar.gz''],
                  Stderr (TarFailed ''/etc/pihole''
                    [''sudo'', ''chown'', ''1000:1000'', ''/b/bind-mounts/etc__pihole.tar.gz''])]\<rparr>)"
  by (simp add: path_child_def str_Path_def splitroot_def path_parts_def emit_def add_file_def
        safe_archive_name_from_src_def lstrip_slash_def tar_cmd_def chown_cmd_def Let_def)

text \<open>
  Claim C3, at the input where the code leaves it. A dry run on a backup whose
  \<open>bind-mounts\<close> directory does not exist yet, with nothing to archive: the directory is
  created, since \<open>ensure_bind_archives\<close> calls \<open>mkdir\<close> before it looks at \<open>dry_run\<close>.
\<close>

theorem dry_run_creates_bind_dir:
  "ensure_bind_archives e [] ''/b/bind-mounts'' True
     \<lparr>dirs = [''/'', ''/b''], files = [], trace = []\<rparr>
   = ([], \<lparr>dirs = [''/'', ''/b'', ''/b/bind-mounts''], files = [],
           trace = [Mkdir ''/b/bind-mounts'']\<rparr>)"
  by (simp add: ensure_bind_archives_def mkdir_parents_def ancestors_and_self_def emit_def)

subsection \<open>Running the edit twice\<close>








lemma set_row_keeps [simp]:
  "address (set_row url descr t r) = address r"
  "a_id (set_row url descr t r) = a_id r"
  by (simp_all add: set_row_def)







lemma settled_iff:
  "settled url descr t d \<longleftrightarrow>
     url \<in> address ` set (adlist d)
     \<and> (\<forall>r \<in> set (adlist d). address r = url \<longrightarrow> row_settled descr t (adlist_by_group d) r)"
  by (auto simp: settled_def list_all_iff)







lemma touch_row_keeps [simp]:
  "address (touch_row url t r) = address r"
  "a_id (touch_row url t r) = a_id r"
  "enabled (touch_row url t r) = enabled r"
  "comment (touch_row url t r) = comment r"
  "forget_modified (touch_row url t r) = forget_modified r"
  by (simp_all add: touch_row_def forget_modified_def)

lemma touch_row_hit: "address r = url \<Longrightarrow> date_modified (touch_row url t r) = t"
  by (simp add: touch_row_def)


lemma touch_fields:
  "tables (touch url t d) = tables d"
  "group_tbl (touch url t d) = group_tbl d"
  "adlist_by_group (touch url t d) = adlist_by_group d"
  "adlist (touch url t d) = map (touch_row url t) (adlist d)"
  by (simp_all add: touch_def)



lemma settled_touch_self:
  assumes st: "settled url descr t d"
  shows "settled url descr tu (touch url tu d)"
proof -
  from st have in0: "url \<in> address ` set (adlist d)"
    and all0: "\<And>r. r \<in> set (adlist d) \<Longrightarrow> address r = url \<Longrightarrow> row_settled descr t (adlist_by_group d) r"
    unfolding settled_iff by blast+
  have 1: "url \<in> address ` set (map (touch_row url tu) (adlist d))"
  proof -
    from in0 obtain r where r: "r \<in> set (adlist d)" "address r = url" by auto
    then have "touch_row url tu r \<in> set (map (touch_row url tu) (adlist d))"
      "address (touch_row url tu r) = url" by simp_all
    then show ?thesis by (metis image_eqI)
  qed
  have 2: "row_settled descr tu (adlist_by_group d) r'"
    if "r' \<in> set (map (touch_row url tu) (adlist d))" "address r' = url" for r'
  proof -
    from that(1) obtain r where r: "r \<in> set (adlist d)" "r' = touch_row url tu r" by auto
    with that(2) have a: "address r = url" by simp
    from all0 [OF r(1) a] touch_row_hit [OF a, of tu] show ?thesis
      unfolding r(2) by (simp add: row_settled_def)
  qed
  from 1 2 show ?thesis unfolding settled_iff touch_fields by blast
qed





















end
